theory Spec2Isabelle
  imports Complex_Main "HOL-Library.AList" "HOL-Library.Sublist"
begin

section \<open>Medimate AI service: entity resolution, terminology, codes and form mapping\<close>

text \<open>
  A shallow embedding of the medical NLP core of the service:
  \<^item> \<^verbatim>\<open>services/nlp/medical_nlp_engine.py\<close> (entities, abbreviation expansion, terminology
    matching, overlap resolution),
  \<^item> \<^verbatim>\<open>services/nlp/medical_terminology.py\<close> (terminology manager),
  \<^item> \<^verbatim>\<open>services/nlp/medical_codes.py\<close> (code search),
  \<^item> \<^verbatim>\<open>services/nlp/nlp_service.py\<close> (entity enhancement),
  \<^item> \<^verbatim>\<open>models/medical_models.py\<close> (field confidence, form mapper).

  Python \<^verbatim>\<open>int\<close> is \<^typ>\<open>int\<close>. A Python \<^verbatim>\<open>float\<close> confidence is a \<^typ>\<open>real\<close>: the
  arithmetic is exact, rounding of the binary format is not part of the model. A Python
  \<^verbatim>\<open>str\<close> is a \<^typ>\<open>string\<close>, each \<^typ>\<open>char\<close> standing for one code point below 256.
\<close>

subsection \<open>Entities (\<^verbatim>\<open>MedicalEntity\<close>)\<close>

record code_ref =
  c_code :: string
  c_system :: string
  c_description :: string
  c_category :: string

record entity =
  e_text :: string
  e_label :: string
  e_start :: int
  e_end :: int
  e_confidence :: real
  e_normalized_form :: string
  e_medical_codes :: "code_ref list"

subsection \<open>Overlap resolution (\<^verbatim>\<open>_normalize_entities\<close>)\<close>

text \<open>
  \<^verbatim>\<open>
  entities.sort(key=lambda x: x.start)
  normalized = []
  for entity in entities:
      overlaps = False
      for existing in normalized:
          if (entity.start < existing.end and entity.end > existing.start):
              if entity.confidence > existing.confidence:
                  normalized.remove(existing)
                  normalized.append(entity)
              overlaps = True
              break
      if not overlaps:
          normalized.append(entity)
  return normalized
  \<close>
  The sort is stable, as \<^const>\<open>sort_key\<close> is. The inner loop stops at the first accepted
  entity that overlaps the candidate; \<^verbatim>\<open>list.remove\<close> deletes the first element equal to
  its argument, which is that entity itself (any earlier equal element would have been the
  first to overlap), so \<^const>\<open>remove1\<close> is the same deletion.
\<close>

definition overlaps :: "entity \<Rightarrow> entity \<Rightarrow> bool" where
  "overlaps ent existing \<longleftrightarrow> e_start ent < e_end existing \<and> e_end ent > e_start existing"

definition accept_entity :: "entity list \<Rightarrow> entity \<Rightarrow> entity list" where
  "accept_entity normalized ent =
     (case find (overlaps ent) normalized of
        None \<Rightarrow> normalized @ [ent]
      | Some existing \<Rightarrow>
          if e_confidence ent > e_confidence existing
          then remove1 existing normalized @ [ent]
          else normalized)"

definition normalize_entities :: "entity list \<Rightarrow> entity list" where
  "normalize_entities entities = foldl accept_entity [] (sort_key e_start entities)"

text \<open>Two spans are apart when one ends before the other starts.\<close>

definition apart :: "entity \<Rightarrow> entity \<Rightarrow> bool" where
  "apart a b \<longleftrightarrow> e_end a \<le> e_start b \<or> e_end b \<le> e_start a"

definition resolved :: "entity list \<Rightarrow> bool" where
  "resolved xs \<longleftrightarrow> distinct xs \<and> (\<forall>x\<in>set xs. \<forall>y\<in>set xs. x \<noteq> y \<longrightarrow> apart x y)"

text \<open>Sample candidates: a condition, a blood pressure reading that overlaps it, an age.\<close>

definition sample_condition :: entity where
  "sample_condition = \<lparr>e_text = ''htn 1'', e_label = ''CONDITIONS'', e_start = 0, e_end = 5,
     e_confidence = 0.8, e_normalized_form = ''hypertension'', e_medical_codes = []\<rparr>"

definition sample_pressure :: entity where
  "sample_pressure = \<lparr>e_text = ''1 120'', e_label = ''BLOOD_PRESSURE'', e_start = 3, e_end = 8,
     e_confidence = 0.95, e_normalized_form = ''1 120'', e_medical_codes = []\<rparr>"

definition sample_age :: entity where
  "sample_age = \<lparr>e_text = ''45'', e_label = ''AGE'', e_start = 8, e_end = 10,
     e_confidence = 0.95, e_normalized_form = ''45'', e_medical_codes = []\<rparr>"

subsection \<open>Form mapper (\<^verbatim>\<open>MedicalFormMapper\<close>)\<close>

text \<open>
  A Python \<^verbatim>\<open>dict\<close> is an association list in insertion order; \<^const>\<open>AList.update\<close> is
  the assignment \<^verbatim>\<open>d[k] = v\<close> (an existing key keeps its place). A form template is its
  \<^verbatim>\<open>'fields'\<close> dictionary. An extracted field carries a \<^verbatim>\<open>'value'\<close>, a string or
  \<^verbatim>\<open>None\<close>, and a \<^verbatim>\<open>'confidence'\<close>, as the field extractor builds them.
\<close>

record field_config =
  required :: bool
  ftype :: string

type_synonym template = "(string \<times> field_config) list"

record extracted_data =
  x_value :: "string option"
  x_confidence :: real

type_synonym extracted_fields = "(string \<times> extracted_data) list"

record mapped_field =
  m_value :: "string option"
  m_confidence :: real
  m_required :: bool
  m_type :: string
  m_auto_filled :: bool

record field_warning =
  w_field :: string
  w_message :: string
  w_confidence :: real

text \<open>
  The \<^verbatim>\<open>'validation'\<close> dictionary has two shapes: the one built by the mapping loop, and
  \<^verbatim>\<open>{'is_valid': False, 'error': str(e)}\<close> of the exception handler.
\<close>

datatype validation =
    Validation bool "string list" "field_warning list" "(string \<times> real) list"
  | Validation_Error string

fun is_valid :: "validation \<Rightarrow> bool" where
  "is_valid (Validation v missing warnings scores) = v"
| "is_valid (Validation_Error msg) = False"

fun missing_required :: "validation \<Rightarrow> string list option" where
  "missing_required (Validation v missing warnings scores) = Some missing"
| "missing_required (Validation_Error msg) = None"

record form_result =
  r_form_type :: string
  r_mapped_fields :: "(string \<times> mapped_field) list"
  r_validation :: validation
  r_completion_rate :: real
  r_fields_filled :: nat
  r_total_fields :: nat

record form_mapper =
  form_templates :: "(string \<times> template) list"
  field_mappings :: "(string \<times> string list) list"

datatype exn = ValueError string

text \<open>Truth value of an optional string: \<^verbatim>\<open>None\<close> and \<^verbatim>\<open>''\<close> are false.\<close>

fun truthy :: "string option \<Rightarrow> bool" where
  "truthy None = False"
| "truthy (Some s) = (s \<noteq> [])"

text \<open>
  \<^verbatim>\<open>
  def _fields_match(self, extracted_field, form_field):
      if extracted_field == form_field:
          return True
      if extracted_field in self.field_mappings:
          return form_field in self.field_mappings[extracted_field]
      return False
  \<close>
\<close>

definition fields_match :: "form_mapper \<Rightarrow> string \<Rightarrow> string \<Rightarrow> bool" where
  "fields_match self extracted_field form_field =
     (if extracted_field = form_field then True
      else case map_of (field_mappings self) extracted_field of
             Some aliases \<Rightarrow> form_field \<in> set aliases
           | None \<Rightarrow> False)"

text \<open>
  The search for the first extracted field that matches a form field; without a match the
  value stays \<^verbatim>\<open>None\<close> and the confidence \<open>0.0\<close>.
\<close>

fun find_match :: "form_mapper \<Rightarrow> extracted_fields \<Rightarrow> string \<Rightarrow> string option \<times> real" where
  "find_match self [] form_field = (None, 0)"
| "find_match self ((extracted_field, extracted) # rest) form_field =
     (if fields_match self extracted_field form_field
      then (x_value extracted, x_confidence extracted)
      else find_match self rest form_field)"

record map_state =
  s_mapped_form :: "(string \<times> mapped_field) list"
  s_is_valid :: bool
  s_missing_required :: "string list"
  s_field_warnings :: "field_warning list"
  s_confidence_scores :: "(string \<times> real) list"

definition map_field ::
  "form_mapper \<Rightarrow> extracted_fields \<Rightarrow> map_state \<Rightarrow> string \<times> field_config \<Rightarrow> map_state" where
  "map_field self extracted st fc =
     (let form_field = fst fc; config = snd fc;
          mapped_value = fst (find_match self extracted form_field);
          confidence = snd (find_match self extracted form_field);
          missing = required config \<and> \<not> truthy mapped_value
      in \<lparr>s_mapped_form = AList.update form_field
             \<lparr>m_value = mapped_value, m_confidence = confidence,
              m_required = required config, m_type = ftype config,
              m_auto_filled = (mapped_value \<noteq> None)\<rparr> (s_mapped_form st),
          s_is_valid = (if missing then False else s_is_valid st),
          s_missing_required =
            (if missing then s_missing_required st @ [form_field] else s_missing_required st),
          s_field_warnings =
            (if truthy mapped_value \<and> confidence < 0.7
             then s_field_warnings st @
                  [\<lparr>w_field = form_field, w_message = ''Low confidence extraction'',
                    w_confidence = confidence\<rparr>]
             else s_field_warnings st),
          s_confidence_scores = AList.update form_field confidence (s_confidence_scores st)\<rparr>)"

definition initial_state :: map_state where
  "initial_state = \<lparr>s_mapped_form = [], s_is_valid = True, s_missing_required = [],
     s_field_warnings = [], s_confidence_scores = []\<rparr>"

definition count_filled :: "(string \<times> mapped_field) list \<Rightarrow> nat" where
  "count_filled mapped_form = length (filter (\<lambda>f. truthy (m_value (snd f))) mapped_form)"

definition completion :: "nat \<Rightarrow> nat \<Rightarrow> real" where
  "completion filled_fields total_fields =
     (if total_fields > 0 then real filled_fields / real total_fields else 0)"

text \<open>The body of the \<^verbatim>\<open>try\<close> block of \<^verbatim>\<open>map_to_form\<close>: it raises on an unknown form type.\<close>

definition map_to_form_body ::
  "form_mapper \<Rightarrow> extracted_fields \<Rightarrow> string \<Rightarrow> exn + form_result" where
  "map_to_form_body self extracted form_type =
     (case map_of (form_templates self) form_type of
        None \<Rightarrow> Inl (ValueError (''Unknown form type: '' @ form_type))
      | Some template \<Rightarrow>
          (let st = foldl (map_field self extracted) initial_state template;
               filled_fields = count_filled (s_mapped_form st);
               total_fields = length (s_mapped_form st)
           in Inr \<lparr>r_form_type = form_type,
                   r_mapped_fields = s_mapped_form st,
                   r_validation = Validation (s_is_valid st) (s_missing_required st)
                     (s_field_warnings st) (s_confidence_scores st),
                   r_completion_rate = completion filled_fields total_fields,
                   r_fields_filled = filled_fields,
                   r_total_fields = total_fields\<rparr>))"

text \<open>
  \<^verbatim>\<open>map_to_form\<close> itself: \<^verbatim>\<open>except Exception as e\<close> turns every exception of the body into
  a returned dictionary. \<open>Inl\<close> would be an exception that reaches the caller.
\<close>

fun str_exn :: "exn \<Rightarrow> string" where
  "str_exn (ValueError msg) = msg"

definition error_result :: "string \<Rightarrow> exn \<Rightarrow> form_result" where
  "error_result form_type e =
     \<lparr>r_form_type = form_type, r_mapped_fields = [],
      r_validation = Validation_Error (str_exn e),
      r_completion_rate = 0, r_fields_filled = 0, r_total_fields = 0\<rparr>"

definition map_to_form ::
  "form_mapper \<Rightarrow> extracted_fields \<Rightarrow> string \<Rightarrow> exn + form_result" where
  "map_to_form self extracted form_type =
     (case map_to_form_body self extracted form_type of
        Inl e \<Rightarrow> Inr (error_result form_type e)
      | Inr result \<Rightarrow> Inr result)"

text \<open>The mapper as \<^verbatim>\<open>__init__\<close> builds it.\<close>

definition load_form_templates :: "(string \<times> template) list" where
  "load_form_templates =
     [(''patient_intake'',
        [(''patient_name'', \<lparr>required = True, ftype = ''text''\<rparr>),
         (''date_of_birth'', \<lparr>required = True, ftype = ''date''\<rparr>),
         (''age'', \<lparr>required = False, ftype = ''number''\<rparr>),
         (''insurance_id'', \<lparr>required = True, ftype = ''text''\<rparr>),
         (''chief_complaint'', \<lparr>required = True, ftype = ''textarea''\<rparr>),
         (''medications'', \<lparr>required = False, ftype = ''textarea''\<rparr>),
         (''allergies'', \<lparr>required = False, ftype = ''text''\<rparr>)]),
      (''discharge_summary'',
        [(''patient_name'', \<lparr>required = True, ftype = ''text''\<rparr>),
         (''medical_record_number'', \<lparr>required = True, ftype = ''text''\<rparr>),
         (''primary_diagnosis'', \<lparr>required = True, ftype = ''text''\<rparr>),
         (''medications'', \<lparr>required = True, ftype = ''textarea''\<rparr>),
         (''discharge_instructions'', \<lparr>required = True, ftype = ''textarea''\<rparr>)]),
      (''insurance_claim'',
        [(''patient_name'', \<lparr>required = True, ftype = ''text''\<rparr>),
         (''date_of_birth'', \<lparr>required = True, ftype = ''date''\<rparr>),
         (''insurance_id'', \<lparr>required = True, ftype = ''text''\<rparr>),
         (''primary_diagnosis'', \<lparr>required = True, ftype = ''text''\<rparr>),
         (''procedure_codes'', \<lparr>required = False, ftype = ''text''\<rparr>),
         (''provider_name'', \<lparr>required = True, ftype = ''text''\<rparr>)])]"

definition initialize_field_mappings :: "(string \<times> string list) list" where
  "initialize_field_mappings =
     [(''patient_name'', [''patient_name'', ''name'', ''full_name'']),
      (''date_of_birth'', [''date_of_birth'', ''dob'', ''birth_date'']),
      (''age'', [''age'', ''patient_age'']),
      (''medical_record_number'', [''mrn'', ''medical_record_number'', ''record_number'']),
      (''insurance_id'', [''insurance_id'', ''policy_number'', ''member_id'']),
      (''primary_diagnosis'', [''primary_diagnosis'', ''diagnosis'', ''main_diagnosis'']),
      (''chief_complaint'', [''chief_complaint'', ''complaint'', ''presenting_problem'']),
      (''medications'', [''medications'', ''current_medications'', ''meds'']),
      (''allergies'', [''allergies'', ''drug_allergies'', ''known_allergies''])]"

definition MedicalFormMapper :: form_mapper where
  "MedicalFormMapper =
     \<lparr>form_templates = load_form_templates, field_mappings = initialize_field_mappings\<rparr>"

text \<open>The values of a mapped form, field by field.\<close>

definition field_values :: "form_result \<Rightarrow> (string \<times> string option) list" where
  "field_values r = map (\<lambda>fm. (fst fm, m_value (snd fm))) (r_mapped_fields r)"

text \<open>The required fields of a template that no truthy extracted value fills.\<close>

definition unfilled_required :: "form_mapper \<Rightarrow> extracted_fields \<Rightarrow> template \<Rightarrow> string list" where
  "unfilled_required self extracted template =
     map fst (filter (\<lambda>fc. required (snd fc)
                \<and> \<not> truthy (fst (find_match self extracted (fst fc)))) template)"

text \<open>A mapped field holds the value and confidence found for its name.\<close>

definition from_match :: "form_mapper \<Rightarrow> extracted_fields \<Rightarrow> string \<times> mapped_field \<Rightarrow> bool" where
  "from_match self extracted fm \<longleftrightarrow>
     (m_value (snd fm), m_confidence (snd fm)) = find_match self extracted (fst fm)"

text \<open>Sample extractions for the \<^verbatim>\<open>patient_intake\<close> form.\<close>

definition patient_intake :: template where
  "patient_intake =
     [(''patient_name'', \<lparr>required = True, ftype = ''text''\<rparr>),
      (''date_of_birth'', \<lparr>required = True, ftype = ''date''\<rparr>),
      (''age'', \<lparr>required = False, ftype = ''number''\<rparr>),
      (''insurance_id'', \<lparr>required = True, ftype = ''text''\<rparr>),
      (''chief_complaint'', \<lparr>required = True, ftype = ''textarea''\<rparr>),
      (''medications'', \<lparr>required = False, ftype = ''textarea''\<rparr>),
      (''allergies'', \<lparr>required = False, ftype = ''text''\<rparr>)]"

definition sample_extracted :: extracted_fields where
  "sample_extracted =
     [(''patient_name'', \<lparr>x_value = Some ''John Doe'', x_confidence = 0.95\<rparr>),
      (''age'', \<lparr>x_value = Some ''45'', x_confidence = 0.85\<rparr>),
      (''insurance_id'', \<lparr>x_value = Some ''INS123456'', x_confidence = 0.65\<rparr>)]"

definition dob_extracted :: extracted_fields where
  "dob_extracted = [(''dob'', \<lparr>x_value = Some ''01/02/1980'', x_confidence = 0.9\<rparr>)]"

subsection \<open>Strings (\<^verbatim>\<open>str\<close> methods and the \<^verbatim>\<open>\w\<close> class of \<^verbatim>\<open>re\<close>)\<close>

text \<open>
  The character classes of Python 3 on the code points below 256.
  \<^item> \<^verbatim>\<open>str.isspace\<close>: TAB to CR, FS to US, SPACE, NEL (133) and NBSP (160).
  \<^item> uppercase letters: \<^verbatim>\<open>A-Z\<close>, 192 to 214 and 216 to 222.
  \<^item> lowercase characters: \<^verbatim>\<open>a-z\<close>, 170, 181, 186, 223 to 246 and 248 to 255.
  \<^item> \<^verbatim>\<open>\w\<close> (alphanumeric or underscore): the letters above, the digits, \<^verbatim>\<open>_\<close>, and the
    numeric characters 178, 179, 185, 188, 189, 190.
\<close>

definition code_point :: "char \<Rightarrow> int" where
  "code_point c = of_char c"

definition between :: "int \<Rightarrow> int \<Rightarrow> int \<Rightarrow> bool" where
  "between lo hi n \<longleftrightarrow> lo \<le> n \<and> n \<le> hi"

definition space_code :: "int \<Rightarrow> bool" where
  "space_code n \<longleftrightarrow> between 9 13 n \<or> between 28 32 n \<or> n = 133 \<or> n = 160"

definition upper_code :: "int \<Rightarrow> bool" where
  "upper_code n \<longleftrightarrow> between 65 90 n \<or> between 192 214 n \<or> between 216 222 n"

definition lower_code :: "int \<Rightarrow> bool" where
  "lower_code n \<longleftrightarrow> between 97 122 n \<or> n = 170 \<or> n = 181 \<or> n = 186
     \<or> between 223 246 n \<or> between 248 255 n"

definition word_code :: "int \<Rightarrow> bool" where
  "word_code n \<longleftrightarrow> between 48 57 n \<or> between 65 90 n \<or> n = 95 \<or> between 97 122 n
     \<or> n = 170 \<or> n = 178 \<or> n = 179 \<or> n = 181 \<or> n = 185 \<or> n = 186
     \<or> between 188 190 n \<or> between 192 214 n \<or> between 216 246 n \<or> between 248 255 n"

definition isspace :: "char \<Rightarrow> bool" where
  "isspace c = space_code (code_point c)"

definition isupper_char :: "char \<Rightarrow> bool" where
  "isupper_char c = upper_code (code_point c)"

definition islower_char :: "char \<Rightarrow> bool" where
  "islower_char c = lower_code (code_point c)"

definition iscased :: "char \<Rightarrow> bool" where
  "iscased c \<longleftrightarrow> isupper_char c \<or> islower_char c"

definition isword :: "char \<Rightarrow> bool" where
  "isword c = word_code (code_point c)"

text \<open>\<^verbatim>\<open>str.lower\<close>: every uppercase letter below 256 has its lowercase 32 places up.\<close>

definition lower_char :: "char \<Rightarrow> char" where
  "lower_char c = (if isupper_char c then char_of (code_point c + 32) else c)"

definition lower :: "string \<Rightarrow> string" where
  "lower s = map lower_char s"

text \<open>
  \<^verbatim>\<open>str.upper\<close>: the lowercase letters with an uppercase 32 places down. The uppercase of
  170, 181, 186, 223 and 255 is not a single code point below 256; the model leaves
  them in place, and no table of the service holds them.
\<close>

definition upper_char :: "char \<Rightarrow> char" where
  "upper_char c =
     (if between 97 122 (code_point c) \<or> between 224 246 (code_point c)
         \<or> between 248 254 (code_point c)
      then char_of (code_point c - 32) else c)"

definition upper :: "string \<Rightarrow> string" where
  "upper s = map upper_char s"

text \<open>
  \<^verbatim>\<open>str.title\<close>: a character after a cased one is lowercased, any other is uppercased.
\<close>

fun title_from :: "bool \<Rightarrow> string \<Rightarrow> string" where
  "title_from previous_is_cased [] = []"
| "title_from previous_is_cased (c # cs) =
     (if previous_is_cased then lower_char c else upper_char c) # title_from (iscased c) cs"

definition title :: "string \<Rightarrow> string" where
  "title s = title_from False s"

text \<open>
  \<^verbatim>\<open>str.isupper\<close>: no lowercase character and at least one uppercase one.
\<close>

definition isupper :: "string \<Rightarrow> bool" where
  "isupper s \<longleftrightarrow> \<not> list_ex islower_char s \<and> list_ex isupper_char s"

text \<open>
  \<^verbatim>\<open>str.istitle\<close>: uppercase characters only after uncased ones, lowercase characters only
  after cased ones, and at least one cased character.
\<close>

fun istitle_from :: "bool \<Rightarrow> bool \<Rightarrow> string \<Rightarrow> bool" where
  "istitle_from cased previous_is_cased [] = cased"
| "istitle_from cased previous_is_cased (c # cs) =
     (if isupper_char c then (if previous_is_cased then False else istitle_from True True cs)
      else if islower_char c then (if previous_is_cased then istitle_from True True cs else False)
      else istitle_from cased False cs)"

definition istitle :: "string \<Rightarrow> bool" where
  "istitle s = istitle_from False False s"

text \<open>
  \<^verbatim>\<open>str.split()\<close> without arguments: the maximal runs of characters that are not
  whitespace. \<^verbatim>\<open>' '.join(words)\<close> puts one space between the words.
\<close>

fun split :: "string \<Rightarrow> string list" where
  "split [] = []"
| "split (c # cs) =
     (if isspace c then split cs
      else if cs = [] \<or> isspace (hd cs) then [c] # split cs
      else (case split cs of [] \<Rightarrow> [[c]] | w # ws \<Rightarrow> (c # w) # ws))"

fun join :: "string list \<Rightarrow> string" where
  "join [] = []"
| "join [w] = w"
| "join (w # ws) = w @ CHR '' '' # join ws"


text \<open>
  \<^verbatim>\<open>sub in s\<close> and \<^verbatim>\<open>s.find(sub)\<close>: the least index at which \<open>sub\<close> occurs in \<open>s\<close>.
\<close>

fun find_from :: "nat \<Rightarrow> string \<Rightarrow> string \<Rightarrow> nat option" where
  "find_from i sub [] = (if sub = [] then Some i else None)"
| "find_from i sub (c # cs) =
     (if prefix sub (c # cs) then Some i else find_from (Suc i) sub cs)"




subsection \<open>Abbreviation expansion (\<^verbatim>\<open>_expand_abbreviations\<close>, \<^verbatim>\<open>expand_abbreviations\<close>)\<close>

text \<open>
  The engine and the terminology manager run the same loop over their own tables:
  \<^verbatim>\<open>
  words = text.split()
  expanded_words = []
  for word in words:
      clean_word = re.sub(r'[^\w]', '', word.lower())
      if clean_word in self.abbreviations:
          expansion = self.abbreviations[clean_word]
          if word.isupper():
              expansion = expansion.upper()
          elif word.istitle():
              expansion = expansion.title()
          punctuation = re.findall(r'[^\w]', word)
          if punctuation:
              expansion += ''.join(punctuation)
          expanded_words.append(expansion)
      else:
          expanded_words.append(word)
  return ' '.join(expanded_words)
  \<close>
  No step of the loop raises, so the handler that returns the text unchanged is never
  entered. The table is a dictionary: an association list with distinct keys.
\<close>

type_synonym abbreviations = "(string \<times> string) list"

definition clean_word :: "string \<Rightarrow> string" where
  "clean_word word = filter isword (lower word)"

definition punctuation :: "string \<Rightarrow> string" where
  "punctuation word = filter (\<lambda>c. \<not> isword c) word"

definition match_case :: "string \<Rightarrow> string \<Rightarrow> string" where
  "match_case word expansion =
     (if isupper word then upper expansion
      else if istitle word then title expansion
      else expansion)"

definition expand_word :: "abbreviations \<Rightarrow> string \<Rightarrow> string" where
  "expand_word table word =
     (case map_of table (clean_word word) of
        Some expansion \<Rightarrow> match_case word expansion @ punctuation word
      | None \<Rightarrow> word)"

definition expand_abbreviations :: "abbreviations \<Rightarrow> string \<Rightarrow> string" where
  "expand_abbreviations table text = join (map (expand_word table) (split text))"

text \<open>The table of the engine (\<^verbatim>\<open>_load_medical_abbreviations\<close>).\<close>

definition engine_abbreviations :: abbreviations where
  "engine_abbreviations =
     [(''bp'', ''blood pressure''), (''hr'', ''heart rate''), (''rr'', ''respiratory rate''),
      (''temp'', ''temperature''), (''o2sat'', ''oxygen saturation''),
      (''bmi'', ''body mass index''),
      (''htn'', ''hypertension''), (''dm'', ''diabetes mellitus''),
      (''mi'', ''myocardial infarction''),
      (''copd'', ''chronic obstructive pulmonary disease''),
      (''chf'', ''congestive heart failure''), (''afib'', ''atrial fibrillation''),
      (''cad'', ''coronary artery disease''), (''ckd'', ''chronic kidney disease''),
      (''asa'', ''aspirin''), (''acei'', ''ace inhibitor''),
      (''arb'', ''angiotensin receptor blocker''), (''ppi'', ''proton pump inhibitor''),
      (''nsaid'', ''nonsteroidal anti-inflammatory drug''),
      (''mg'', ''milligrams''), (''ml'', ''milliliters''), (''mcg'', ''micrograms''),
      (''iu'', ''international units''), (''bid'', ''twice daily''),
      (''tid'', ''three times daily''), (''qid'', ''four times daily''),
      (''prn'', ''as needed''),
      (''qd'', ''once daily''), (''qod'', ''every other day''), (''qhs'', ''at bedtime''),
      (''ac'', ''before meals''), (''pc'', ''after meals''),
      (''po'', ''by mouth''), (''iv'', ''intravenous''), (''im'', ''intramuscular''),
      (''sq'', ''subcutaneous''), (''sl'', ''sublingual''), (''pr'', ''per rectum'')]"

definition engine_expand_abbreviations :: "string \<Rightarrow> string" where
  "engine_expand_abbreviations text = expand_abbreviations engine_abbreviations text"

subsection \<open>Terminology manager (\<^verbatim>\<open>MedicalTerminologyManager\<close>)\<close>

record medical_term =
  t_term :: string
  t_category :: string
  t_synonyms :: "string list"
  t_abbreviations :: "string list"
  t_codes :: "code_ref list"
  t_confidence :: real

record terminology_manager =
  tm_terms :: "(string \<times> medical_term) list"
  tm_codes :: "(string \<times> (string \<times> code_ref) list) list"
  tm_abbreviations :: abbreviations
  tm_synonyms :: "(string \<times> string) list"
  tm_categories :: "(string \<times> string list) list"

text \<open>
  \<^verbatim>\<open>add_term\<close>: each assignment \<^verbatim>\<open>d[k] = v\<close> is an \<^const>\<open>AList.update\<close>, each loop a fold.
\<close>

definition add_term :: "medical_term \<Rightarrow> terminology_manager \<Rightarrow> terminology_manager" where
  "add_term term self =
     self\<lparr>tm_terms := AList.update (lower (t_term term)) term (tm_terms self),
          tm_synonyms := foldl (\<lambda>d synonym. AList.update (lower synonym) (lower (t_term term)) d)
                           (tm_synonyms self) (t_synonyms term),
          tm_abbreviations := foldl (\<lambda>d abbrev. AList.update (lower abbrev) (lower (t_term term)) d)
                           (tm_abbreviations self) (t_abbreviations term),
          tm_categories :=
            (case map_of (tm_categories self) (t_category term) of
               None \<Rightarrow> AList.update (t_category term) [lower (t_term term)] (tm_categories self)
             | Some ts \<Rightarrow> AList.update (t_category term) (ts @ [lower (t_term term)])
                           (tm_categories self)),
          tm_codes := foldl (\<lambda>d code.
                 AList.update (c_system code)
                   (AList.update (c_code code) code
                      (case map_of d (c_system code) of None \<Rightarrow> [] | Some cs \<Rightarrow> cs)) d)
               (tm_codes self) (t_codes term)\<rparr>"

definition new_term ::
  "string \<Rightarrow> string \<Rightarrow> string list \<Rightarrow> string list \<Rightarrow> code_ref list \<Rightarrow> medical_term" where
  "new_term term category synonyms abbrevs codes =
     \<lparr>t_term = term, t_category = category, t_synonyms = synonyms,
      t_abbreviations = abbrevs, t_codes = codes, t_confidence = 1\<rparr>"

definition icd10 :: "string \<Rightarrow> string \<Rightarrow> string \<Rightarrow> code_ref" where
  "icd10 code description category =
     \<lparr>c_code = code, c_system = ''ICD-10'', c_description = description,
      c_category = category\<rparr>"

definition basic_terminology :: "medical_term list" where
  "basic_terminology =
     [new_term ''hypertension'' ''cardiovascular''
        [''high blood pressure'', ''elevated blood pressure''] [''htn'', ''hbp'']
        [icd10 ''I10'' ''Essential hypertension'' ''cardiovascular''],
      new_term ''diabetes mellitus'' ''endocrine''
        [''diabetes'', ''diabetic condition''] [''dm'', ''diabetes'']
        [icd10 ''E11'' ''Type 2 diabetes mellitus'' ''endocrine''],
      new_term ''myocardial infarction'' ''cardiovascular''
        [''heart attack'', ''cardiac arrest'', ''mi''] [''mi'', ''ami'']
        [icd10 ''I21'' ''Acute myocardial infarction'' ''cardiovascular''],
      new_term ''pneumonia'' ''respiratory''
        [''lung infection'', ''respiratory infection''] [''pna'']
        [icd10 ''J18'' ''Pneumonia, unspecified organism'' ''respiratory''],
      new_term ''chronic obstructive pulmonary disease'' ''respiratory''
        [''copd'', ''chronic bronchitis'', ''emphysema''] [''copd'']
        [icd10 ''J44'' ''Other chronic obstructive pulmonary disease'' ''respiratory''],
      new_term ''metformin'' ''medication'' [''glucophage'', ''fortamet'', ''glumetza''] [''met''] [],
      new_term ''lisinopril'' ''medication'' [''prinivil'', ''zestril''] [''acei''] [],
      new_term ''atorvastatin'' ''medication'' [''lipitor''] [''statin''] [],
      new_term ''metoprolol'' ''medication'' [''lopressor'', ''toprol''] [''bb'', ''beta blocker''] [],
      new_term ''amlodipine'' ''medication'' [''norvasc''] [''ccb'', ''calcium channel blocker''] [],
      new_term ''heart'' ''anatomy'' [''cardiac'', ''cardio''] [''cardiac''] [],
      new_term ''lung'' ''anatomy'' [''pulmonary'', ''respiratory''] [''pulm'', ''resp''] [],
      new_term ''kidney'' ''anatomy'' [''renal'', ''nephro''] [''renal''] [],
      new_term ''liver'' ''anatomy'' [''hepatic'', ''hepato''] [''hepatic''] []]"

definition empty_manager :: terminology_manager where
  "empty_manager = \<lparr>tm_terms = [], tm_codes = [], tm_abbreviations = [], tm_synonyms = [],
     tm_categories = []\<rparr>"

definition MedicalTerminologyManager :: terminology_manager where
  "MedicalTerminologyManager = foldl (\<lambda>self term. add_term term self) empty_manager basic_terminology"

definition manager_expand_abbreviations :: "terminology_manager \<Rightarrow> string \<Rightarrow> string" where
  "manager_expand_abbreviations self text = expand_abbreviations (tm_abbreviations self) text"

text \<open>
  A token is a non-empty string without whitespace. A string is normal when it is its own
  tokens joined by single spaces: no whitespace at either end, and between two tokens
  exactly one space character.
\<close>

definition token :: "string \<Rightarrow> bool" where
  "token w \<longleftrightarrow> w \<noteq> [] \<and> list_all (\<lambda>c. \<not> isspace c) w"

definition normal :: "string \<Rightarrow> bool" where
  "normal s \<longleftrightarrow> s \<noteq> [] \<and> join (split s) = s"

text \<open>
  Two checks on an expansion of a table, in each of the three case forms the expander can
  produce: it is normal, and none of its words is itself an abbreviation of the table.
\<close>

definition case_forms :: "string \<Rightarrow> string list" where
  "case_forms expansion = [expansion, upper expansion, title expansion]"

definition entry_normal :: "string \<Rightarrow> bool" where
  "entry_normal expansion = list_all normal (case_forms expansion)"

definition entry_stable :: "abbreviations \<Rightarrow> string \<Rightarrow> bool" where
  "entry_stable table expansion =
     list_all (\<lambda>form. list_all (\<lambda>u. map_of table (clean_word u) = None) (split form))
       (case_forms expansion)"

text \<open>
  The abbreviation dictionary of the terminology manager once \<^verbatim>\<open>__init__\<close> has added the
  basic terms, written out.
\<close>

definition manager_table :: abbreviations where
  "manager_table =
     [(''htn'', ''hypertension''), (''hbp'', ''hypertension''),
      (''dm'', ''diabetes mellitus''), (''diabetes'', ''diabetes mellitus''),
      (''mi'', ''myocardial infarction''), (''ami'', ''myocardial infarction''),
      (''pna'', ''pneumonia''),
      (''copd'', ''chronic obstructive pulmonary disease''),
      (''met'', ''metformin''), (''acei'', ''lisinopril''),
      (''statin'', ''atorvastatin''), (''bb'', ''metoprolol''),
      (''beta blocker'', ''metoprolol''), (''ccb'', ''amlodipine''),
      (''calcium channel blocker'', ''amlodipine''), (''cardiac'', ''heart''),
      (''pulm'', ''lung''), (''resp'', ''lung''), (''renal'', ''kidney''),
      (''hepatic'', ''liver'')]"

subsection \<open>Terminology matcher (\<^verbatim>\<open>_extract_terminology_entities\<close>)\<close>












subsection \<open>Term normalisation (\<^verbatim>\<open>normalize_term\<close>, \<^verbatim>\<open>_fuzzy_match\<close>, \<^verbatim>\<open>get_medical_codes\<close>)\<close>









subsection \<open>Entity enhancement (\<^verbatim>\<open>_enhance_entities_with_terminology\<close>)\<close>



subsection \<open>Confidence of the candidates of the engine\<close>











subsection \<open>Field confidence (\<^verbatim>\<open>_calculate_field_confidence\<close>)\<close>


section \<open>Properties\<close>

subsection \<open>Overlap resolution\<close>

lemma find_overlaps_None:
  "find (overlaps ent) xs = None \<Longrightarrow> x \<in> set xs \<Longrightarrow> \<not> overlaps ent x"
  by (simp add: find_None_iff)

lemma find_overlaps_Some:
  "find (overlaps ent) xs = Some x \<Longrightarrow> x \<in> set xs \<and> overlaps ent x"
  by (auto simp: find_Some_iff)

lemma not_overlaps_apart: "\<not> overlaps a b \<Longrightarrow> apart a b"
  by (auto simp: overlaps_def apart_def)

lemma apart_sym: "apart a b \<Longrightarrow> apart b a"
  by (auto simp: apart_def)

lemma apart_neq: "e_start a < e_end a \<Longrightarrow> apart a b \<Longrightarrow> a \<noteq> b"
  by (auto simp: apart_def)

lemma winner_apart_from_rest:
  assumes ov: "overlaps ent x"
    and xy: "apart x y"
    and sx: "e_start x \<le> e_start ent" and sy: "e_start y \<le> e_start ent"
    and vy: "e_start y < e_end y" and vx: "e_start x < e_end x"
  shows "apart ent y"
  using assms by (auto simp: overlaps_def apart_def)

lemma accept_entity_resolved:
  assumes res: "resolved normalized"
    and valid: "\<forall>x\<in>set normalized. e_start x < e_end x"
    and before: "\<forall>x\<in>set normalized. e_start x \<le> e_start ent"
    and vent: "e_start ent < e_end ent"
  shows "resolved (accept_entity normalized ent)"
proof (cases "find (overlaps ent) normalized")
  case None
  have ap: "\<forall>x\<in>set normalized. apart ent x"
    using None find_overlaps_None not_overlaps_apart by blast
  then have "ent \<notin> set normalized"
    using vent apart_neq by blast
  then show ?thesis
    using res ap None by (auto simp: resolved_def accept_entity_def dest: apart_sym)
next
  case (Some x)
  then have xin: "x \<in> set normalized" and ov: "overlaps ent x"
    using find_overlaps_Some by blast+
  show ?thesis
  proof (cases "e_confidence ent > e_confidence x")
    case False
    then show ?thesis using Some res by (simp add: accept_entity_def)
  next
    case True
    have dist: "distinct normalized" using res by (simp add: resolved_def)
    have rest: "set (remove1 x normalized) = set normalized - {x}"
      using dist by simp
    have ap: "\<forall>y\<in>set (remove1 x normalized). apart ent y"
    proof
      fix y assume "y \<in> set (remove1 x normalized)"
      then have yin: "y \<in> set normalized" and ne: "x \<noteq> y" using rest by auto
      then have "apart x y" using res xin by (simp add: resolved_def)
      then show "apart ent y"
        using winner_apart_from_rest [OF ov] before valid xin yin by blast
    qed
    then have notin: "ent \<notin> set (remove1 x normalized)"
      using vent apart_neq by blast
    have "resolved (remove1 x normalized @ [ent])"
      unfolding resolved_def
    proof (intro conjI ballI impI)
      show "distinct (remove1 x normalized @ [ent])"
        using dist notin by simp
    next
      fix a b
      assume a: "a \<in> set (remove1 x normalized @ [ent])"
        and b: "b \<in> set (remove1 x normalized @ [ent])" and ab: "a \<noteq> b"
      show "apart a b"
      proof (cases "a = ent")
        case True
        then show ?thesis using ap b ab by auto
      next
        case False
        then have ain: "a \<in> set normalized" using a rest by auto
        show ?thesis
        proof (cases "b = ent")
          case True
          then show ?thesis using ap a False apart_sym by auto
        next
          case False
          then have "b \<in> set normalized" using b rest by auto
          then show ?thesis using res ain ab by (simp add: resolved_def)
        qed
      qed
    qed
    then show ?thesis using Some True by (simp add: accept_entity_def)
  qed
qed

lemma accept_entity_subset:
  "set (accept_entity normalized ent) \<subseteq> insert ent (set normalized)"
  by (auto simp: accept_entity_def split: option.splits dest: notin_set_remove1)

lemma foldl_accept_resolved:
  assumes "resolved normalized"
    and "\<forall>x\<in>set normalized. e_start x < e_end x"
    and "\<forall>x\<in>set normalized. \<forall>y\<in>set es. e_start x \<le> e_start y"
    and "\<forall>y\<in>set es. e_start y < e_end y"
    and "sorted (map e_start es)"
  shows "resolved (foldl accept_entity normalized es)"
  using assms
proof (induction es arbitrary: normalized)
  case Nil
  then show ?case by simp
next
  case (Cons ent es)
  let ?n = "accept_entity normalized ent"
  have sub: "set ?n \<subseteq> insert ent (set normalized)"
    by (rule accept_entity_subset)
  have r: "resolved ?n"
    using Cons.prems by (intro accept_entity_resolved) auto
  have v: "\<forall>x\<in>set ?n. e_start x < e_end x"
    using sub Cons.prems(2,4) by auto
  have b: "\<forall>x\<in>set ?n. \<forall>y\<in>set es. e_start x \<le> e_start y"
    using sub Cons.prems(3,5) by auto
  have "resolved (foldl accept_entity ?n es)"
    using r v b Cons.prems(4,5) by (intro Cons.IH) auto
  then show ?case by simp
qed

lemma normalize_entities_resolved:
  assumes "\<forall>e\<in>set entities. e_start e < e_end e"
  shows "resolved (normalize_entities entities)"
  unfolding normalize_entities_def
  using assms by (intro foldl_accept_resolved) (auto simp: resolved_def)

lemma resolved_nth:
  assumes "resolved xs" "i < length xs" "j < length xs" "i \<noteq> j"
  shows "apart (xs ! i) (xs ! j)"
proof -
  have "xs ! i \<noteq> xs ! j"
    using assms by (simp add: resolved_def nth_eq_iff_index_eq)
  then show ?thesis using assms by (simp add: resolved_def)
qed

text \<open>
  C1. For every list of candidate entities whose spans satisfy \<open>start < end\<close>, the list
  returned by the resolver holds no two entities with overlapping spans: any two entries at
  different positions \<open>a\<close>, \<open>b\<close> satisfy \<open>a.end \<le> b.start\<close> or \<open>b.end \<le> a.start\<close>.
\<close>

theorem normalize_entities_no_overlap:
  assumes "\<forall>e\<in>set entities. e_start e < e_end e"
    and "i < length (normalize_entities entities)"
    and "j < length (normalize_entities entities)"
    and "i \<noteq> j"
  shows "e_end (normalize_entities entities ! i) \<le> e_start (normalize_entities entities ! j)
       \<or> e_end (normalize_entities entities ! j) \<le> e_start (normalize_entities entities ! i)"
  using resolved_nth [OF normalize_entities_resolved [OF assms(1)] assms(2,3,4)]
  by (simp add: apart_def)

lemma sample_normalized:
  "normalize_entities [sample_age, sample_condition, sample_pressure]
     = [sample_pressure, sample_age]"
  by (simp add: normalize_entities_def accept_entity_def overlaps_def
      sample_condition_def sample_pressure_def sample_age_def)

theorem normalize_entities_no_overlap_witness:
  "e_start sample_age < e_end sample_age
   \<and> e_start sample_condition < e_end sample_condition
   \<and> e_start sample_pressure < e_end sample_pressure
   \<and> 0 < length (normalize_entities [sample_age, sample_condition, sample_pressure])
   \<and> 1 < length (normalize_entities [sample_age, sample_condition, sample_pressure])
   \<and> (0::nat) \<noteq> 1
   \<and> (e_end (normalize_entities [sample_age, sample_condition, sample_pressure] ! 0)
         \<le> e_start (normalize_entities [sample_age, sample_condition, sample_pressure] ! 1)
      \<or> e_end (normalize_entities [sample_age, sample_condition, sample_pressure] ! 1)
         \<le> e_start (normalize_entities [sample_age, sample_condition, sample_pressure] ! 0))"
proof -
  have v: "\<forall>e\<in>set [sample_age, sample_condition, sample_pressure]. e_start e < e_end e"
    by (simp add: sample_condition_def sample_pressure_def sample_age_def)
  have l0: "0 < length (normalize_entities [sample_age, sample_condition, sample_pressure])"
    and l1: "1 < length (normalize_entities [sample_age, sample_condition, sample_pressure])"
    by (simp_all add: sample_normalized)
  have ne: "(0::nat) \<noteq> 1" by simp
  from normalize_entities_no_overlap [OF v l0 l1 ne] v l0 l1 ne
  show ?thesis by simp
qed

subsection \<open>Form mapping\<close>

lemma map_field_keys:
  "fst ` set (s_mapped_form (map_field self extracted st fc)) = insert (fst fc) (fst ` set (s_mapped_form st))"
  using AList.dom_update [of "fst fc" _ "s_mapped_form st"]
  by (simp add: map_field_def Let_def)

lemma foldl_map_field_keys:
  "fst ` set (s_mapped_form (foldl (map_field self extracted) st template))
     = fst ` set (s_mapped_form st) \<union> fst ` set template"
  by (induction template arbitrary: st) (auto simp: map_field_keys)

lemma map_field_missing:
  "s_missing_required (map_field self extracted st fc) =
     s_missing_required st @
       (if required (snd fc) \<and> \<not> truthy (fst (find_match self extracted (fst fc))) then [fst fc] else [])"
  by (simp add: map_field_def Let_def)

lemma map_field_valid:
  "s_is_valid (map_field self extracted st fc) =
     (s_is_valid st \<and> \<not> (required (snd fc) \<and> \<not> truthy (fst (find_match self extracted (fst fc)))))"
  by (simp add: map_field_def Let_def)

lemma foldl_map_field_missing:
  "s_missing_required (foldl (map_field self extracted) st template)
     = s_missing_required st @ unfilled_required self extracted template"
  by (induction template arbitrary: st) (simp_all add: map_field_missing unfilled_required_def)

lemma foldl_map_field_valid:
  "s_is_valid (foldl (map_field self extracted) st template)
     = (s_is_valid st \<and> unfilled_required self extracted template = [])"
  by (induction template arbitrary: st) (auto simp add: map_field_valid unfilled_required_def)

lemma set_update_subset: "set (AList.update k v al) \<subseteq> insert (k, v) (set al)"
  by (induction al) auto

lemma map_field_values:
  assumes "\<forall>fm\<in>set (s_mapped_form st). from_match self extracted fm"
  shows "\<forall>fm\<in>set (s_mapped_form (map_field self extracted st fc)). from_match self extracted fm"
proof
  fix fm assume "fm \<in> set (s_mapped_form (map_field self extracted st fc))"
  then have "fm \<in> insert (fst fc, \<lparr>m_value = fst (find_match self extracted (fst fc)),
      m_confidence = snd (find_match self extracted (fst fc)), m_required = required (snd fc),
      m_type = ftype (snd fc), m_auto_filled = (fst (find_match self extracted (fst fc)) \<noteq> None)\<rparr>)
      (set (s_mapped_form st))"
    using set_update_subset by (fastforce simp: map_field_def Let_def)
  then show "from_match self extracted fm"
    using assms by (auto simp: from_match_def)
qed

lemma foldl_map_field_values:
  assumes "\<forall>fm\<in>set (s_mapped_form st). from_match self extracted fm"
  shows "\<forall>fm\<in>set (s_mapped_form (foldl (map_field self extracted) st template)).
           from_match self extracted fm"
  using assms
proof (induction template arbitrary: st)
  case Nil
  then show ?case by simp
next
  case (Cons fc template)
  show ?case
    using Cons.IH [OF map_field_values [OF Cons.prems]] by simp
qed

lemma count_filled_le: "count_filled mapped \<le> length mapped"
  by (simp add: count_filled_def)

lemma length_filter_full: "length (filter P xs) = length xs \<longleftrightarrow> (\<forall>x\<in>set xs. P x)"
proof (induction xs)
  case Nil
  then show ?case by simp
next
  case (Cons a xs)
  have "length (filter P xs) \<le> length xs" by simp
  then have ne: "length (filter P xs) \<noteq> Suc (length xs)" by linarith
  show ?case
  proof (cases "P a")
    case True
    then show ?thesis using Cons by simp
  next
    case False
    then show ?thesis using ne by auto
  qed
qed

lemma count_filled_all:
  "count_filled mapped = length mapped \<longleftrightarrow> (\<forall>fm\<in>set mapped. truthy (m_value (snd fm)))"
  by (simp add: count_filled_def length_filter_full)

lemma completion_bounds:
  assumes "nf \<le> nt"
  shows "0 \<le> completion nf nt \<and> completion nf nt \<le> 1"
  using assms by (simp add: completion_def)

lemma completion_one:
  assumes "nf \<le> nt"
  shows "completion nf nt = 1 \<longleftrightarrow> 0 < nt \<and> nf = nt"
  using assms by (auto simp: completion_def)

lemma map_to_form_registered:
  assumes "map_of (form_templates self) form_type = Some template"
  shows "map_to_form self extracted form_type =
     Inr \<lparr>r_form_type = form_type,
          r_mapped_fields = s_mapped_form (foldl (map_field self extracted) initial_state template),
          r_validation = Validation
            (s_is_valid (foldl (map_field self extracted) initial_state template))
            (s_missing_required (foldl (map_field self extracted) initial_state template))
            (s_field_warnings (foldl (map_field self extracted) initial_state template))
            (s_confidence_scores (foldl (map_field self extracted) initial_state template)),
          r_completion_rate = completion
            (count_filled (s_mapped_form (foldl (map_field self extracted) initial_state template)))
            (length (s_mapped_form (foldl (map_field self extracted) initial_state template))),
          r_fields_filled =
            count_filled (s_mapped_form (foldl (map_field self extracted) initial_state template)),
          r_total_fields =
            length (s_mapped_form (foldl (map_field self extracted) initial_state template))\<rparr>"
  using assms by (simp add: map_to_form_def map_to_form_body_def Let_def)

lemma map_to_form_unregistered:
  assumes "map_of (form_templates self) form_type = None"
  shows "map_to_form self extracted form_type =
     Inr \<lparr>r_form_type = form_type, r_mapped_fields = [],
          r_validation = Validation_Error (''Unknown form type: '' @ form_type),
          r_completion_rate = 0, r_fields_filled = 0, r_total_fields = 0\<rparr>"
  using assms by (simp add: map_to_form_def map_to_form_body_def error_result_def)


lemma find_match_source:
  assumes "fst (find_match self extracted f) \<noteq> None"
  shows "\<exists>ed\<in> set extracted. fields_match self (fst ed) f
           \<and> find_match self extracted f = (x_value (snd ed), x_confidence (snd ed))"
  using assms by (induction self extracted f rule: find_match.induct) auto

lemma find_match_no_match:
  assumes "\<forall>ed\<in> set extracted. \<not> fields_match self (fst ed) f"
  shows "find_match self extracted f = (None, 0)"
  using assms by (induction self extracted f rule: find_match.induct) auto

lemma builtin_aliases_checked:
  "list_all (\<lambda>ca. list_all (\<lambda>a. a = fst ca \<or> \<not> fields_match MedicalFormMapper a (fst ca))
       (snd ca)) initialize_field_mappings"
  by code_simp

lemma builtin_alias_not_canonical:
  assumes "(canonical, aliases) \<in> set initialize_field_mappings"
    and "a \<in> set aliases" and "a \<noteq> canonical"
  shows "\<not> fields_match MedicalFormMapper a canonical"
  using assms builtin_aliases_checked by (fastforce simp: list_all_iff)

lemma intake_registered:
  "map_of (form_templates MedicalFormMapper) ''patient_intake'' = Some patient_intake"
  by code_simp

lemma from_match_value:
  "from_match self extracted fm \<Longrightarrow> m_value (snd fm) = fst (find_match self extracted (fst fm))"
  by (metis from_match_def fst_conv)

text \<open>
  C3 (as the code has it). For a form type that is not registered, the body of
  \<^verbatim>\<open>map_to_form\<close> raises \<^verbatim>\<open>ValueError("Unknown form type: ...")\<close>, and the handler of
  \<^verbatim>\<open>map_to_form\<close> catches it: the caller gets an ordinary result with no mapped fields,
  \<^verbatim>\<open>is_valid = False\<close>, the message under \<^verbatim>\<open>'error'\<close>, and zero counts. No exception
  reaches the caller.
\<close>

theorem map_to_form_unknown_form_type:
  assumes "form_type \<notin> fst ` set (form_templates self)"
  shows "map_to_form_body self extracted form_type
           = Inl (ValueError (''Unknown form type: '' @ form_type))
       \<and> map_to_form self extracted form_type
           = Inr \<lparr>r_form_type = form_type, r_mapped_fields = [],
                  r_validation = Validation_Error (''Unknown form type: '' @ form_type),
                  r_completion_rate = 0, r_fields_filled = 0, r_total_fields = 0\<rparr>
       \<and> is_valid (r_validation (error_result form_type
             (ValueError (''Unknown form type: '' @ form_type)))) = False"
proof -
  have none: "map_of (form_templates self) form_type = None"
    using assms by (simp add: map_of_eq_None_iff)
  show ?thesis
    using map_to_form_unregistered [OF none] none
    by (simp add: map_to_form_body_def error_result_def)
qed

lemma unknown_form_unregistered:
  "''unknown_form'' \<notin> fst ` set (form_templates MedicalFormMapper)"
  by code_simp

theorem map_to_form_unknown_form_type_witness:
  "''unknown_form'' \<notin> fst ` set (form_templates MedicalFormMapper)
   \<and> map_to_form MedicalFormMapper sample_extracted ''unknown_form''
       = Inr \<lparr>r_form_type = ''unknown_form'', r_mapped_fields = [],
              r_validation = Validation_Error ''Unknown form type: unknown_form'',
              r_completion_rate = 0, r_fields_filled = 0, r_total_fields = 0\<rparr>"
  using map_to_form_unknown_form_type [OF unknown_form_unregistered, of sample_extracted]
    unknown_form_unregistered
  by simp

text \<open>
  The claim as stated fails: for the unregistered type \<^verbatim>\<open>unknown_form\<close> the call returns
  a result, it does not fail with an error.
\<close>

theorem map_to_form_unknown_form_type_counterexample:
  "\<not> isl (map_to_form MedicalFormMapper [] ''unknown_form'')"
  by code_simp

lemma find_match_value:
  "fst (find_match self extracted f) = None
   \<or> (\<exists>ed\<in>set extracted. fst (find_match self extracted f) = x_value (snd ed))"
  by (induction self extracted f rule: find_match.induct) auto

lemma truthy_not_none:
  assumes "\<forall>ed\<in>set extracted. x_value (snd ed) \<noteq> Some []"
  shows "truthy (fst (find_match self extracted f))
         \<longleftrightarrow> fst (find_match self extracted f) \<noteq> None"
proof (cases "fst (find_match self extracted f)")
  case None
  then show ?thesis by simp
next
  case (Some v)
  then have "v \<noteq> []" using find_match_value [of self extracted f] assms by auto
  then show ?thesis using Some by simp
qed

lemma builtin_templates_nonempty:
  "list_all (\<lambda>kt. snd kt \<noteq> []) (form_templates MedicalFormMapper)"
  by code_simp

text \<open>
  C5. The field extractor keeps a match only when its cleaned value is a non-empty string
  (\<^verbatim>\<open>if value:\<close>), so no extracted value is the empty string. For a registered form type
  and such an extraction, \<^verbatim>\<open>completion_rate\<close> is \<^verbatim>\<open>fields_filled / total_fields\<close>, lies
  in \<open>[0, 1]\<close> and is 0 when the template has no fields. The mapped form has the fields
  of the template; for a template with at least one field, as every built-in template
  is, the rate is 1 exactly when every template field has a non-null value.
\<close>

theorem map_to_form_completion_rate:
  assumes "map_of (form_templates self) form_type = Some template"
    and "\<forall>ed\<in>set extracted. x_value (snd ed) \<noteq> Some []"
  shows "\<exists>r. map_to_form self extracted form_type = Inr r
     \<and> fst ` set (r_mapped_fields r) = fst ` set template
     \<and> r_total_fields r = length (r_mapped_fields r)
     \<and> r_fields_filled r
         = length (filter (\<lambda>fm. m_value (snd fm) \<noteq> None) (r_mapped_fields r))
     \<and> r_completion_rate r
         = (if r_total_fields r > 0
            then real (r_fields_filled r) / real (r_total_fields r) else 0)
     \<and> 0 \<le> r_completion_rate r \<and> r_completion_rate r \<le> 1
     \<and> (template = [] \<longrightarrow> r_completion_rate r = 0)
     \<and> (template \<noteq> [] \<longrightarrow>
          (r_completion_rate r = 1
             \<longleftrightarrow> (\<forall>fm\<in>set (r_mapped_fields r). m_value (snd fm) \<noteq> None)))
     \<and> (self = MedicalFormMapper \<longrightarrow> template \<noteq> [])"
proof -
  let ?st = "foldl (map_field self extracted) initial_state template"
  let ?mapped = "s_mapped_form ?st"
  obtain r where r: "map_to_form self extracted form_type = Inr r"
    and rm: "r_mapped_fields r = ?mapped"
    and rt: "r_total_fields r = length ?mapped"
    and rf: "r_fields_filled r = count_filled ?mapped"
    and rc: "r_completion_rate r = completion (count_filled ?mapped) (length ?mapped)"
    using map_to_form_registered [OF assms(1), of extracted] by simp
  have "\<forall>fm\<in>set ?mapped. from_match self extracted fm"
    by (rule foldl_map_field_values) (simp add: initial_state_def)
  then have vals: "\<forall>fm\<in>set ?mapped.
      m_value (snd fm) = fst (find_match self extracted (fst fm))"
    using from_match_value by blast
  have filled: "\<forall>fm\<in>set ?mapped. truthy (m_value (snd fm)) \<longleftrightarrow> m_value (snd fm) \<noteq> None"
    using vals truthy_not_none [OF assms(2)] by simp
  then have same_filter: "filter (\<lambda>fm. truthy (m_value (snd fm))) ?mapped
      = filter (\<lambda>fm. m_value (snd fm) \<noteq> None) ?mapped"
    by (intro filter_cong) auto
  have keys: "fst ` set ?mapped = fst ` set template"
    by (simp add: foldl_map_field_keys initial_state_def)
  have empty: "template = [] \<longleftrightarrow> ?mapped = []"
    using keys by (metis image_is_empty set_empty)
  have le: "count_filled ?mapped \<le> length ?mapped"
    by (rule count_filled_le)
  have one: "completion (count_filled ?mapped) (length ?mapped) = 1
      \<longleftrightarrow> 0 < length ?mapped \<and> (\<forall>fm\<in>set ?mapped. truthy (m_value (snd fm)))"
    using completion_one [OF le] count_filled_all by blast
  have c1: "fst ` set (r_mapped_fields r) = fst ` set template"
    using keys rm by simp
  have c2: "r_total_fields r = length (r_mapped_fields r)"
    using rt rm by simp
  have c3: "r_fields_filled r
         = length (filter (\<lambda>fm. m_value (snd fm) \<noteq> None) (r_mapped_fields r))"
    using rf rm same_filter by (simp add: count_filled_def)
  have c4: "r_completion_rate r
         = (if r_total_fields r > 0
            then real (r_fields_filled r) / real (r_total_fields r) else 0)"
    using rc rt rf by (simp add: completion_def)
  have c5: "0 \<le> r_completion_rate r \<and> r_completion_rate r \<le> 1"
    using completion_bounds [OF le] rc by simp
  have c6: "template = [] \<longrightarrow> r_completion_rate r = 0"
    using empty rc by (simp add: completion_def)
  have c7: "template \<noteq> [] \<longrightarrow>
          (r_completion_rate r = 1
             \<longleftrightarrow> (\<forall>fm\<in>set (r_mapped_fields r). m_value (snd fm) \<noteq> None))"
    using one empty rc rm filled by simp
  have c8: "self = MedicalFormMapper \<longrightarrow> template \<noteq> []"
  proof
    assume "self = MedicalFormMapper"
    then have "(form_type, template) \<in> set (form_templates MedicalFormMapper)"
      using assms(1) by (simp add: map_of_SomeD)
    then show "template \<noteq> []"
      using builtin_templates_nonempty by (auto simp: list_all_iff)
  qed
  from r c1 c2 c3 c4 c5 c6 c7 c8 show ?thesis by blast
qed

theorem map_to_form_completion_rate_witness:
  "map_of (form_templates MedicalFormMapper) ''patient_intake'' = Some patient_intake
   \<and> list_all (\<lambda>ed. x_value (snd ed) \<noteq> Some []) sample_extracted
   \<and> map_sum id r_completion_rate
        (map_to_form MedicalFormMapper sample_extracted ''patient_intake'') = Inr (3 / 7)
   \<and> (\<exists>r. map_to_form MedicalFormMapper sample_extracted ''patient_intake'' = Inr r
        \<and> 0 \<le> r_completion_rate r \<and> r_completion_rate r \<le> 1
        \<and> r_completion_rate r
            = (if r_total_fields r > 0
               then real (r_fields_filled r) / real (r_total_fields r) else 0)
        \<and> r_completion_rate r \<noteq> 1)"
proof -
  have v: "list_all (\<lambda>ed. x_value (snd ed) \<noteq> Some []) sample_extracted"
    by code_simp
  then have h: "\<forall>ed\<in>set sample_extracted. x_value (snd ed) \<noteq> Some []"
    unfolding list_all_iff .
  have e: "map_sum id r_completion_rate
        (map_to_form MedicalFormMapper sample_extracted ''patient_intake'') = Inr (3 / 7)"
    by code_simp
  obtain r where "map_to_form MedicalFormMapper sample_extracted ''patient_intake'' = Inr r"
    and "0 \<le> r_completion_rate r \<and> r_completion_rate r \<le> 1"
    and "r_completion_rate r
            = (if r_total_fields r > 0
               then real (r_fields_filled r) / real (r_total_fields r) else 0)"
    using map_to_form_completion_rate [OF intake_registered h] by blast
  moreover from this e have "r_completion_rate r \<noteq> 1" by simp
  ultimately show ?thesis using intake_registered v e by blast
qed

text \<open>
  C6. For a registered form type the validation result has a \<^verbatim>\<open>missing_required\<close> list,
  \<^verbatim>\<open>is_valid\<close> is true exactly when that list is empty, and the list holds, in template
  order, the required fields whose mapped value is not truthy.
\<close>

theorem map_to_form_is_valid:
  assumes "map_of (form_templates self) form_type = Some template"
  shows "\<exists>r missing. map_to_form self extracted form_type = Inr r
     \<and> missing_required (r_validation r) = Some missing
     \<and> (missing \<noteq> [] \<longrightarrow> is_valid (r_validation r) = False)
     \<and> (missing = [] \<longrightarrow> is_valid (r_validation r) = True)
     \<and> missing = unfilled_required self extracted template
     \<and> (\<forall>fm\<in>set (r_mapped_fields r).
           m_value (snd fm) = fst (find_match self extracted (fst fm)))"
proof -
  let ?st = "foldl (map_field self extracted) initial_state template"
  have miss: "s_missing_required ?st = unfilled_required self extracted template"
    by (simp add: foldl_map_field_missing initial_state_def)
  have valid: "s_is_valid ?st = (unfilled_required self extracted template = [])"
    by (simp add: foldl_map_field_valid initial_state_def)
  have "\<forall>fm\<in>set (s_mapped_form ?st). from_match self extracted fm"
    by (rule foldl_map_field_values) (simp add: initial_state_def)
  then have vals: "\<forall>fm\<in>set (s_mapped_form ?st).
      m_value (snd fm) = fst (find_match self extracted (fst fm))"
    using from_match_value by blast
  show ?thesis
    unfolding map_to_form_registered [OF assms]
    using miss valid vals by simp
qed

theorem map_to_form_is_valid_witness:
  "map_of (form_templates MedicalFormMapper) ''patient_intake'' = Some patient_intake
   \<and> map_sum id (\<lambda>r. (is_valid (r_validation r), missing_required (r_validation r)))
        (map_to_form MedicalFormMapper sample_extracted ''patient_intake'')
       = Inr (False, Some [''date_of_birth'', ''chief_complaint''])
   \<and> (\<exists>r missing. map_to_form MedicalFormMapper sample_extracted ''patient_intake'' = Inr r
        \<and> missing_required (r_validation r) = Some missing
        \<and> is_valid (r_validation r) = (missing = []))"
proof -
  have "map_sum id (\<lambda>r. (is_valid (r_validation r), missing_required (r_validation r)))
        (map_to_form MedicalFormMapper sample_extracted ''patient_intake'')
       = Inr (False, Some [''date_of_birth'', ''chief_complaint''])"
    by code_simp
  then show ?thesis
    using map_to_form_is_valid [OF intake_registered, of sample_extracted]
      intake_registered
    by auto
qed

text \<open>
  C10. An extracted field \<open>e\<close> matches a form field \<open>f\<close> exactly when \<open>e = f\<close> or \<open>f\<close> is in
  the alias list stored under the key \<open>e\<close>. Every value of a mapped form comes from an
  extracted field that matches in this direction. With the built-in table, an alias other
  than the canonical name (\<^verbatim>\<open>dob\<close> for \<^verbatim>\<open>date_of_birth\<close>) never matches the canonical
  field, whatever the templates are.
\<close>

theorem fields_match_directional:
  "(fields_match self e f \<longleftrightarrow>
      e = f \<or> (\<exists>aliases. map_of (field_mappings self) e = Some aliases \<and> f \<in> set aliases))
   \<and> (\<forall>template r fm.
        map_of (form_templates self) form_type = Some template
        \<and> map_to_form self extracted form_type = Inr r
        \<and> fm \<in> set (r_mapped_fields r) \<and> m_value (snd fm) \<noteq> None
        \<longrightarrow> (\<exists>ed\<in>set extracted. fields_match self (fst ed) (fst fm)
              \<and> m_value (snd fm) = x_value (snd ed)
              \<and> m_confidence (snd fm) = x_confidence (snd ed)))
   \<and> (\<forall>canonical aliases a.
        field_mappings self = initialize_field_mappings
        \<and> (canonical, aliases) \<in> set initialize_field_mappings
        \<and> a \<in> set aliases \<and> a \<noteq> canonical
        \<longrightarrow> \<not> fields_match self a canonical)"
proof (intro conjI allI impI)
  show "fields_match self e f \<longleftrightarrow>
      e = f \<or> (\<exists>aliases. map_of (field_mappings self) e = Some aliases \<and> f \<in> set aliases)"
    by (auto simp: fields_match_def split: option.splits)
next
  fix template r fm
  assume a: "map_of (form_templates self) form_type = Some template
        \<and> map_to_form self extracted form_type = Inr r
        \<and> fm \<in> set (r_mapped_fields r) \<and> m_value (snd fm) \<noteq> None"
  let ?st = "foldl (map_field self extracted) initial_state template"
  have "\<forall>fm\<in>set (s_mapped_form ?st). from_match self extracted fm"
    by (rule foldl_map_field_values) (simp add: initial_state_def)
  moreover have "r_mapped_fields r = s_mapped_form ?st"
    using a map_to_form_registered [of self form_type template extracted] by auto
  ultimately have fm: "(m_value (snd fm), m_confidence (snd fm))
      = find_match self extracted (fst fm)"
    using a by (simp add: from_match_def)
  then have "fst (find_match self extracted (fst fm)) \<noteq> None"
    using a by (metis fst_conv)
  from find_match_source [OF this] fm
  show "\<exists>ed\<in>set extracted. fields_match self (fst ed) (fst fm)
              \<and> m_value (snd fm) = x_value (snd ed)
              \<and> m_confidence (snd fm) = x_confidence (snd ed)"
    by auto
next
  fix canonical aliases a
  assume a: "field_mappings self = initialize_field_mappings
        \<and> (canonical, aliases) \<in> set initialize_field_mappings
        \<and> a \<in> set aliases \<and> a \<noteq> canonical"
  then have "\<not> fields_match MedicalFormMapper a canonical"
    using builtin_alias_not_canonical by blast
  then show "\<not> fields_match self a canonical"
    using a by (simp add: fields_match_def MedicalFormMapper_def)
qed

theorem fields_match_directional_witness:
  "(''date_of_birth'', [''date_of_birth'', ''dob'', ''birth_date''])
      \<in> set initialize_field_mappings
   \<and> \<not> fields_match MedicalFormMapper ''dob'' ''date_of_birth''
   \<and> fields_match MedicalFormMapper ''date_of_birth'' ''dob''
   \<and> map_sum id field_values (map_to_form MedicalFormMapper dob_extracted ''patient_intake'')
       = Inr [(''patient_name'', None), (''date_of_birth'', None), (''age'', None),
              (''insurance_id'', None), (''chief_complaint'', None), (''medications'', None),
              (''allergies'', None)]"
proof -
  have m: "(''date_of_birth'', [''date_of_birth'', ''dob'', ''birth_date''])
      \<in> set initialize_field_mappings"
    by code_simp
  have fm: "field_mappings MedicalFormMapper = initialize_field_mappings"
    by (simp add: MedicalFormMapper_def)
  have a: "''dob'' \<in> set [''date_of_birth'', ''dob'', ''birth_date'']"
    and n: "''dob'' \<noteq> ''date_of_birth''"
    by simp_all
  have "\<not> fields_match MedicalFormMapper ''dob'' ''date_of_birth''"
    using fields_match_directional [of MedicalFormMapper] fm m a n by blast
  moreover have "fields_match MedicalFormMapper ''date_of_birth'' ''dob''"
    by code_simp
  moreover have "map_sum id field_values
      (map_to_form MedicalFormMapper dob_extracted ''patient_intake'')
       = Inr [(''patient_name'', None), (''date_of_birth'', None), (''age'', None),
              (''insurance_id'', None), (''chief_complaint'', None), (''medications'', None),
              (''allergies'', None)]"
    by code_simp
  ultimately show ?thesis using m by blast
qed

subsection \<open>Splitting and joining\<close>

text \<open>A token is a non-empty string without whitespace.\<close>

lemma token_iff: "token w \<longleftrightarrow> w \<noteq> [] \<and> (\<forall>c\<in>set w. \<not> isspace c)"
  by (simp add: token_def list_all_iff)

lemma split_nonempty: "s \<noteq> [] \<Longrightarrow> \<not> isspace (hd s) \<Longrightarrow> split s \<noteq> []"
  by (cases s) (auto split: list.splits)

lemma split_tokens: "w \<in> set (split s) \<Longrightarrow> token w"
proof (induction s arbitrary: w rule: split.induct)
  case 1
  then show ?case by simp
next
  case (2 c cs)
  show ?case
  proof (cases "isspace c")
    case True
    then show ?thesis using 2 by simp
  next
    case nsp: False
    show ?thesis
    proof (cases "cs = [] \<or> isspace (hd cs)")
      case True
      then have "w = [c] \<or> w \<in> set (split cs)" using 2(4) nsp by auto
      then show ?thesis using 2(2) nsp True by (auto simp: token_iff)
    next
      case False
      then obtain v vs where sp: "split cs = v # vs"
        using split_nonempty [of cs] by (cases "split cs") auto
      then have "w = c # v \<or> w \<in> set vs" using 2(4) nsp False by auto
      moreover have "token v" and "\<forall>x\<in>set vs. token x"
        using 2(3) nsp False sp by auto
      ultimately show ?thesis using nsp by (auto simp: token_iff)
    qed
  qed
qed

lemma split_append_space:
  "isspace c \<Longrightarrow> split (u @ c # v) = split u @ split v"
proof (induction u rule: split.induct)
  case 1
  then show ?case by simp
next
  case (2 a u)
  show ?case
  proof (cases "isspace a")
    case True
    then show ?thesis using 2 by simp
  next
    case nsp: False
    show ?thesis
    proof (cases "u = []")
      case True
      then show ?thesis using nsp 2(4) by simp
    next
      case ne: False
      show ?thesis
      proof (cases "isspace (hd u)")
        case True
        then show ?thesis using nsp ne 2 by simp
      next
        case False
        then obtain w ws where sp: "split u = w # ws"
          using split_nonempty [of u] ne by (cases "split u") auto
        have "split (u @ c # v) = split u @ split v"
          using 2(3) [OF nsp _ 2(4)] ne False by simp
        then show ?thesis using nsp ne False sp by simp
      qed
    qed
  qed
qed

lemma split_token: "token w \<Longrightarrow> split w = [w]"
proof (induction w)
  case Nil
  then show ?case by (simp add: token_iff)
next
  case (Cons c w)
  show ?case
  proof (cases "w = []")
    case True
    then show ?thesis using Cons.prems by (simp add: token_iff)
  next
    case False
    then have "token w" using Cons.prems by (simp add: token_iff)
    then have "split w = [w]" by (rule Cons.IH)
    moreover have "\<not> isspace c" "\<not> isspace (hd w)"
      using Cons.prems False hd_in_set [of w] by (auto simp: token_iff)
    ultimately show ?thesis using False by simp
  qed
qed

lemma split_join_tokens: "list_all token ws \<Longrightarrow> split (join ws) = ws"
proof (induction ws rule: join.induct)
  case 1
  then show ?case by simp
next
  case (2 w)
  then show ?case by (simp add: split_token)
next
  case (3 w v vs)
  have "isspace CHR '' ''" by (simp add: isspace_def space_code_def between_def code_point_def)
  then have "split (w @ CHR '' '' # join (v # vs)) = split w @ split (join (v # vs))"
    by (rule split_append_space)
  then show ?case using 3 by (simp add: split_token)
qed

lemma split_join: "split (join xs) = concat (map split xs)"
proof (induction xs rule: join.induct)
  case 1
  then show ?case by simp
next
  case (2 w)
  then show ?case by simp
next
  case (3 w v vs)
  have "isspace CHR '' ''" by (simp add: isspace_def space_code_def between_def code_point_def)
  then have "split (w @ CHR '' '' # join (v # vs)) = split w @ split (join (v # vs))"
    by (rule split_append_space)
  then show ?case using 3 by simp
qed

lemma join_append:
  "xs \<noteq> [] \<Longrightarrow> ys \<noteq> [] \<Longrightarrow> join (xs @ ys) = join xs @ CHR '' '' # join ys"
proof (induction xs rule: join.induct)
  case 1
  then show ?case by simp
next
  case (2 w)
  then show ?case by (cases ys) simp_all
next
  case (3 w v vs)
  then show ?case by simp
qed

lemma join_snoc_append:
  "ts \<noteq> [] \<Longrightarrow> join ts @ p = join (butlast ts @ [last ts @ p])"
proof (induction ts rule: join.induct)
  case 1
  then show ?case by simp
next
  case (2 w)
  then show ?case by simp
next
  case (3 w v vs)
  then have "join (v # vs) @ p = join (butlast (v # vs) @ [last (v # vs) @ p])" by simp
  moreover have "join (w # (butlast (v # vs) @ [last (v # vs) @ p]))
      = w @ CHR '' '' # join (butlast (v # vs) @ [last (v # vs) @ p])"
    by (cases "butlast (v # vs) @ [last (v # vs) @ p]") simp_all
  ultimately show ?case by simp
qed

lemma normal_split_nonempty: "normal x \<Longrightarrow> split x \<noteq> []"
  by (auto simp: normal_def)

lemma normal_token: "token w \<Longrightarrow> normal w"
  by (simp add: normal_def split_token token_iff)

lemma join_concat_split:
  "\<forall>x\<in>set xs. normal x \<Longrightarrow> join (concat (map split xs)) = join xs"
proof (induction xs)
  case Nil
  then show ?case by simp
next
  case (Cons x xs)
  have nx: "normal x" using Cons.prems by simp
  show ?case
  proof (cases xs)
    case Nil
    then show ?thesis using nx by (simp add: normal_def)
  next
    case (Cons y ys)
    then have "split y \<noteq> []" using Cons.prems normal_split_nonempty by simp
    then have ne: "concat (map split xs) \<noteq> []" using Cons by simp
    have "join (split x @ concat (map split xs))
        = join (split x) @ CHR '' '' # join (concat (map split xs))"
      using join_append [OF normal_split_nonempty [OF nx] ne] .
    also have "\<dots> = x @ CHR '' '' # join xs"
      using nx Cons.IH Cons.prems by (simp add: normal_def)
    also have "\<dots> = join (x # xs)" using Cons by simp
    finally show ?thesis by simp
  qed
qed

lemma normal_append_punct:
  assumes n: "normal e" and p: "\<forall>c\<in>set p. \<not> isspace c"
  shows "normal (e @ p)"
    and "split (e @ p) = butlast (split e) @ [last (split e) @ p]"
proof -
  let ?ts = "split e"
  have ne: "?ts \<noteq> []" using n by (rule normal_split_nonempty)
  have e: "e = join ?ts" using n by (simp add: normal_def)
  have toks: "\<forall>w\<in>set ?ts. token w" using split_tokens by blast
  have "token (last ?ts)" using toks ne by simp
  then have lt: "token (last ?ts @ p)" using p by (auto simp: token_iff)
  have "\<forall>w\<in>set (butlast ?ts). token w" using toks by (meson in_set_butlastD)
  then have all: "list_all token (butlast ?ts @ [last ?ts @ p])"
    using lt by (simp add: list_all_iff)
  have ep: "e @ p = join (butlast ?ts @ [last ?ts @ p])"
    using join_snoc_append [OF ne, of p] e by simp
  show sp: "split (e @ p) = butlast ?ts @ [last ?ts @ p]"
    using split_join_tokens [OF all] ep by simp
  have "e @ p \<noteq> []" using n by (simp add: normal_def)
  moreover have "join (split (e @ p)) = e @ p" using sp ep by simp
  ultimately show "normal (e @ p)" by (simp add: normal_def)
qed

subsection \<open>Characters\<close>

lemma code_point_char_of: "0 \<le> n \<Longrightarrow> n < 256 \<Longrightarrow> code_point (char_of n) = n"
  by (simp add: code_point_def)

lemma code_point_nonneg: "0 \<le> code_point c"
proof -
  have "code_point c = int (of_char c)"
    by (simp add: code_point_def of_nat_of_char)
  then show ?thesis by simp
qed

lemma upper_cases:
  assumes "isupper_char c"
  obtains "between 65 90 (code_point c)" | "between 192 214 (code_point c)"
    | "between 216 222 (code_point c)"
  using assms unfolding isupper_char_def upper_code_def by blast

lemma lower_char_code_point:
  assumes "isupper_char c"
  shows "code_point (lower_char c) = code_point c + 32"
proof -
  have "code_point c \<le> 222"
    using assms by (cases rule: upper_cases) (simp_all add: between_def)
  then have "code_point (char_of (code_point c + 32)) = code_point c + 32"
    using code_point_nonneg [of c] by (intro code_point_char_of) simp_all
  then show ?thesis using assms by (simp add: lower_char_def)
qed

lemma isupper_char_word:
  assumes "isupper_char c"
  shows "isword c"
  using assms
proof (cases rule: upper_cases)
  case 1
  then show ?thesis by (simp add: isword_def word_code_def)
next
  case 2
  then show ?thesis by (simp add: isword_def word_code_def)
next
  case 3
  then have "between 216 246 (code_point c)" by (simp add: between_def)
  then show ?thesis by (simp add: isword_def word_code_def)
qed

lemma lower_of_upper_word:
  assumes "isupper_char c"
  shows "isword (lower_char c)"
  using assms
proof (cases rule: upper_cases)
  case 1
  then have "between 97 122 (code_point (lower_char c))"
    by (simp add: between_def lower_char_code_point [OF assms])
  then show ?thesis by (simp add: isword_def word_code_def)
next
  case 2
  then have "between 216 246 (code_point (lower_char c))"
    by (simp add: between_def lower_char_code_point [OF assms])
  then show ?thesis by (simp add: isword_def word_code_def)
next
  case 3
  then have "between 248 255 (code_point (lower_char c))"
    by (simp add: between_def lower_char_code_point [OF assms])
  then show ?thesis by (simp add: isword_def word_code_def)
qed

lemma isword_lower_char: "isword (lower_char c) = isword c"
proof (cases "isupper_char c")
  case True
  then show ?thesis using lower_of_upper_word isupper_char_word by simp
next
  case False
  then show ?thesis by (simp add: lower_char_def)
qed

lemma isspace_ranges:
  "isspace c \<Longrightarrow> code_point c \<le> 32 \<or> code_point c = 133 \<or> code_point c = 160"
  unfolding isspace_def space_code_def between_def by (elim disjE) simp_all

lemma isword_ranges:
  "isword c \<Longrightarrow> 48 \<le> code_point c \<and> code_point c \<noteq> 133 \<and> code_point c \<noteq> 160"
  unfolding isword_def word_code_def between_def by (elim disjE) simp_all

lemma isspace_not_word: "isspace c \<Longrightarrow> \<not> isword c"
  using isspace_ranges [of c] isword_ranges [of c] by auto

lemma isspace_space: "isspace CHR '' ''"
  by (simp add: isspace_def space_code_def between_def code_point_def)

subsection \<open>Abbreviation expansion\<close>

lemma clean_word_append_punct:
  assumes "\<forall>c\<in>set p. \<not> isword c"
  shows "clean_word (u @ p) = clean_word u"
proof -
  have "filter isword (map lower_char p) = []"
    using assms by (simp add: filter_empty_conv isword_lower_char)
  then show ?thesis by (simp add: clean_word_def lower_def)
qed

lemma punctuation_not_word: "\<forall>c\<in>set (punctuation w). \<not> isword c"
  by (simp add: punctuation_def)

lemma punctuation_no_space: "token w \<Longrightarrow> \<forall>c\<in>set (punctuation w). \<not> isspace c"
  by (simp add: punctuation_def token_iff)

lemma match_case_forms: "match_case w e \<in> set (case_forms e)"
  by (simp add: match_case_def case_forms_def)

lemma expand_word_unmatched:
  "map_of table (clean_word w) = None \<Longrightarrow> expand_word table w = w"
  by (simp add: expand_word_def)

lemma expand_word_normal:
  assumes tok: "token w"
    and ok: "\<And>e. map_of table (clean_word w) = Some e \<Longrightarrow> entry_normal e"
  shows "normal (expand_word table w)"
proof (cases "map_of table (clean_word w)")
  case None
  then show ?thesis using tok by (simp add: expand_word_def normal_token)
next
  case (Some e)
  have "normal (match_case w e)"
    using ok [OF Some] match_case_forms [of w e] by (simp add: entry_normal_def list_all_iff)
  then have "normal (match_case w e @ punctuation w)"
    using normal_append_punct(1) punctuation_no_space [OF tok] by blast
  then show ?thesis using Some by (simp add: expand_word_def)
qed

lemma expand_word_fixes_result:
  assumes tok: "token w"
    and norm: "\<And>e. map_of table (clean_word w) = Some e \<Longrightarrow> entry_normal e"
    and stab: "\<And>e. map_of table (clean_word w) = Some e \<Longrightarrow> entry_stable table e"
    and u: "u \<in> set (split (expand_word table w))"
  shows "expand_word table u = u"
proof (cases "map_of table (clean_word w)")
  case None
  then have "u = w" using u tok by (simp add: expand_word_def split_token)
  then show ?thesis using None by (simp add: expand_word_def)
next
  case (Some e)
  let ?f = "match_case w e"
  let ?p = "punctuation w"
  have nf: "normal ?f"
    using norm [OF Some] match_case_forms [of w e] by (simp add: entry_normal_def list_all_iff)
  have sf: "\<forall>v\<in>set (split ?f). map_of table (clean_word v) = None"
    using stab [OF Some] match_case_forms [of w e]
    by (simp add: entry_stable_def list_all_iff)
  have ne: "split ?f \<noteq> []" using nf by (rule normal_split_nonempty)
  have sp: "split (?f @ ?p) = butlast (split ?f) @ [last (split ?f) @ ?p]"
    using normal_append_punct(2) [OF nf punctuation_no_space [OF tok]] .
  then have "u \<in> set (butlast (split ?f)) \<or> u = last (split ?f) @ ?p"
    using u Some by (auto simp: expand_word_def)
  then have "map_of table (clean_word u) = None"
  proof
    assume "u \<in> set (butlast (split ?f))"
    then show ?thesis using sf by (meson in_set_butlastD)
  next
    assume "u = last (split ?f) @ ?p"
    then have "clean_word u = clean_word (last (split ?f))"
      using clean_word_append_punct [OF punctuation_not_word] by simp
    then show ?thesis using sf ne by simp
  qed
  then show ?thesis by (rule expand_word_unmatched)
qed

lemma expand_abbreviations_normalised:
  assumes "\<And>w e. w \<in> set (split text) \<Longrightarrow> map_of table (clean_word w) = Some e
             \<Longrightarrow> entry_normal e"
  shows "join (split (expand_abbreviations table text)) = expand_abbreviations table text"
proof -
  have "\<forall>x\<in>set (map (expand_word table) (split text)). normal x"
    using assms split_tokens expand_word_normal by (auto simp del: split.simps)
  then show ?thesis
    unfolding expand_abbreviations_def split_join
    by (rule join_concat_split)
qed

lemma expand_abbreviations_idempotent:
  assumes norm: "\<And>w e. w \<in> set (split text) \<Longrightarrow> map_of table (clean_word w) = Some e
             \<Longrightarrow> entry_normal e"
    and stab: "\<And>w e. w \<in> set (split text) \<Longrightarrow> map_of table (clean_word w) = Some e
             \<Longrightarrow> entry_stable table e"
  shows "expand_abbreviations table (expand_abbreviations table text)
           = expand_abbreviations table text"
proof -
  let ?f = "expand_word table"
  let ?out = "map ?f (split text)"
  have fixed: "\<forall>w\<in>set (split text). map ?f (split (?f w)) = split (?f w)"
  proof
    fix w assume w: "w \<in> set (split text)"
    have "\<forall>u\<in>set (split (?f w)). ?f u = u"
      using expand_word_fixes_result [OF split_tokens [OF w] norm [OF w] stab [OF w]]
      by blast
    then show "map ?f (split (?f w)) = split (?f w)"
      by (simp add: map_idI)
  qed
  have "map ?f (split (join ?out)) = concat (map (\<lambda>w. map ?f (split (?f w))) (split text))"
    by (simp add: split_join map_concat comp_def)
  also have "\<dots> = concat (map (\<lambda>w. split (?f w)) (split text))"
    using fixed by (metis (mono_tags, lifting) map_eq_conv)
  also have "\<dots> = split (join ?out)"
    by (simp add: split_join comp_def)
  finally have "join (map ?f (split (join ?out))) = join (split (join ?out))" by simp
  also have "\<dots> = join ?out"
    using expand_abbreviations_normalised [of "text" table] norm
    by (simp add: expand_abbreviations_def)
  finally show ?thesis by (simp add: expand_abbreviations_def)
qed

lemma engine_table_normal: "list_all (\<lambda>ke. entry_normal (snd ke)) engine_abbreviations"
  by code_simp

lemma engine_table_stable:
  "list_all (\<lambda>ke. entry_stable engine_abbreviations (snd ke)) engine_abbreviations"
  by code_simp

lemma manager_abbreviations_loaded:
  "tm_abbreviations MedicalTerminologyManager = manager_table"
  by code_simp

lemma manager_table_normal:
  "list_all (\<lambda>ke. entry_normal (snd ke)) manager_table"
  by code_simp

lemma manager_table_stable:
  "list_all (\<lambda>ke. fst ke \<in> set [''dm'', ''diabetes'']
        \<or> entry_stable manager_table (snd ke)) manager_table"
  by code_simp

lemma join_tokens_spaces:
  "list_all token ws \<Longrightarrow> c \<in> set (join ws) \<Longrightarrow> isspace c \<Longrightarrow> c = CHR '' ''"
  by (induction ws rule: join.induct) (auto simp: token_iff)

lemma engine_entry_checked:
  assumes "map_of engine_abbreviations k = Some e"
  shows "entry_normal e" and "entry_stable engine_abbreviations e"
proof -
  have "(k, e) \<in> set engine_abbreviations" using assms by (rule map_of_SomeD)
  then show "entry_normal e" and "entry_stable engine_abbreviations e"
    using engine_table_normal engine_table_stable by (auto simp: list_all_iff)
qed

lemma manager_entry_checked:
  assumes "map_of manager_table k = Some e"
  shows "entry_normal e"
    and "k \<notin> set [''dm'', ''diabetes''] \<Longrightarrow> entry_stable manager_table e"
proof -
  have "(k, e) \<in> set manager_table"
    using assms by (rule map_of_SomeD)
  then show "entry_normal e"
    and "k \<notin> set [''dm'', ''diabetes''] \<Longrightarrow> entry_stable manager_table e"
    using manager_table_normal manager_table_stable by (auto simp: list_all_iff)
qed

lemma normalised_fixpoint:
  "join (split (f t)) = f t \<Longrightarrow> f t = t \<Longrightarrow> join (split t) = t"
  by simp

text \<open>
  C4 (as the code has it). The expander of the NLP engine is idempotent on every text.
  The expander of the terminology manager is idempotent on every text none of whose words
  cleans to \<^verbatim>\<open>dm\<close> or \<^verbatim>\<open>diabetes\<close>: these two abbreviations expand to
  \<^verbatim>\<open>diabetes mellitus\<close>, whose first word is an abbreviation again.
\<close>

theorem expand_abbreviations_idempotence:
  "engine_expand_abbreviations (engine_expand_abbreviations t) = engine_expand_abbreviations t
   \<and> ((\<forall>w\<in>set (split t). clean_word w \<notin> set [''dm'', ''diabetes'']) \<longrightarrow>
        manager_expand_abbreviations MedicalTerminologyManager
          (manager_expand_abbreviations MedicalTerminologyManager t)
        = manager_expand_abbreviations MedicalTerminologyManager t)"
proof (intro conjI impI)
  show "engine_expand_abbreviations (engine_expand_abbreviations t)
      = engine_expand_abbreviations t"
    unfolding engine_expand_abbreviations_def
    by (rule expand_abbreviations_idempotent) (auto dest: engine_entry_checked)
next
  assume "\<forall>w\<in>set (split t). clean_word w \<notin> set [''dm'', ''diabetes'']"
  then show "manager_expand_abbreviations MedicalTerminologyManager
          (manager_expand_abbreviations MedicalTerminologyManager t)
        = manager_expand_abbreviations MedicalTerminologyManager t"
    unfolding manager_expand_abbreviations_def manager_abbreviations_loaded
    by (intro expand_abbreviations_idempotent) (blast dest: manager_entry_checked)+
qed

theorem expand_abbreviations_idempotence_witness:
  "list_all (\<lambda>w. clean_word w \<notin> set [''dm'', ''diabetes'']) (split ''Pt has  HTN.'')
   \<and> manager_expand_abbreviations MedicalTerminologyManager ''Pt has  HTN.''
       = ''Pt has HYPERTENSION.''
   \<and> manager_expand_abbreviations MedicalTerminologyManager
        (manager_expand_abbreviations MedicalTerminologyManager ''Pt has  HTN.'')
       = manager_expand_abbreviations MedicalTerminologyManager ''Pt has  HTN.''
   \<and> engine_expand_abbreviations (engine_expand_abbreviations ''Pt has HTN and DM.'')
       = engine_expand_abbreviations ''Pt has HTN and DM.''"
proof -
  have h: "list_all (\<lambda>w. clean_word w \<notin> set [''dm'', ''diabetes'']) (split ''Pt has  HTN.'')"
    by code_simp
  have e: "manager_expand_abbreviations MedicalTerminologyManager ''Pt has  HTN.''
       = ''Pt has HYPERTENSION.''"
    unfolding manager_expand_abbreviations_def manager_abbreviations_loaded by code_simp
  from h have "\<forall>w\<in>set (split ''Pt has  HTN.''). clean_word w \<notin> set [''dm'', ''diabetes'']"
    unfolding list_all_iff .
  with expand_abbreviations_idempotence [of "''Pt has  HTN.''"]
    expand_abbreviations_idempotence [of "''Pt has HTN and DM.''"] h e
  show ?thesis by blast
qed

text \<open>
  The claim as stated fails for the terminology manager: expanding \<^verbatim>\<open>diabetes\<close> gives
  \<^verbatim>\<open>diabetes mellitus\<close>, and expanding that gives \<^verbatim>\<open>diabetes mellitus mellitus\<close>.
\<close>

theorem expand_abbreviations_idempotence_counterexample:
  "manager_expand_abbreviations MedicalTerminologyManager ''diabetes'' = ''diabetes mellitus''
   \<and> manager_expand_abbreviations MedicalTerminologyManager
        (manager_expand_abbreviations MedicalTerminologyManager ''diabetes'')
       = ''diabetes mellitus mellitus''"
  unfolding manager_expand_abbreviations_def manager_abbreviations_loaded by code_simp

text \<open>
  C9. The expander returns the words of the text, each expanded or left as it is, joined
  by single spaces. When no word is an abbreviation the result is the words of the input
  joined by single spaces, so every run of whitespace becomes one space and whitespace
  at the ends is dropped. For both tables the result is always in this form, hence it
  equals the input only when the input already is its words joined by single spaces;
  such a text holds no whitespace character other than the space.
\<close>

theorem expand_abbreviations_collapses_whitespace:
  "expand_abbreviations table t = join (map (expand_word table) (split t))
   \<and> ((\<forall>w\<in>set (split t). map_of table (clean_word w) = None) \<longrightarrow>
        expand_abbreviations table t = join (split t))
   \<and> (engine_expand_abbreviations t = t \<longrightarrow> join (split t) = t)
   \<and> (manager_expand_abbreviations MedicalTerminologyManager t = t \<longrightarrow> join (split t) = t)
   \<and> (join (split t) = t \<longrightarrow> (\<forall>c\<in>set t. isspace c \<longrightarrow> c = CHR '' ''))"
proof (intro conjI impI)
  show "expand_abbreviations table t = join (map (expand_word table) (split t))"
    by (simp add: expand_abbreviations_def)
next
  assume "\<forall>w\<in>set (split t). map_of table (clean_word w) = None"
  then have "map (expand_word table) (split t) = split t"
    by (simp add: map_idI expand_word_unmatched)
  then show "expand_abbreviations table t = join (split t)"
    by (simp add: expand_abbreviations_def)
next
  assume same: "engine_expand_abbreviations t = t"
  have "join (split (engine_expand_abbreviations t)) = engine_expand_abbreviations t"
    unfolding engine_expand_abbreviations_def
    by (rule expand_abbreviations_normalised) (auto dest: engine_entry_checked)
  then show "join (split t) = t" using same by simp
next
  assume same: "manager_expand_abbreviations MedicalTerminologyManager t = t"
  have "join (split (manager_expand_abbreviations MedicalTerminologyManager t))
      = manager_expand_abbreviations MedicalTerminologyManager t"
    unfolding manager_expand_abbreviations_def manager_abbreviations_loaded
    by (rule expand_abbreviations_normalised) (auto dest: manager_entry_checked)
  then show "join (split t) = t" using same by simp
next
  assume j: "join (split t) = t"
  have "list_all token (split t)" using split_tokens by (simp add: list_all_iff)
  then have "\<forall>c\<in>set (join (split t)). isspace c \<longrightarrow> c = CHR '' ''"
    using join_tokens_spaces by blast
  then show "\<forall>c\<in>set t. isspace c \<longrightarrow> c = CHR '' ''" using j by simp
qed

theorem expand_abbreviations_collapses_whitespace_witness:
  "list_all (\<lambda>w. map_of engine_abbreviations (clean_word w) = None)
      (split [CHR '' '', CHR ''n'', CHR ''o'', CHR 0x09, CHR '' '', CHR ''f'', CHR ''e'',
              CHR ''v'', CHR ''e'', CHR ''r'', CHR 0x0A])
   \<and> expand_abbreviations engine_abbreviations
        [CHR '' '', CHR ''n'', CHR ''o'', CHR 0x09, CHR '' '', CHR ''f'', CHR ''e'',
         CHR ''v'', CHR ''e'', CHR ''r'', CHR 0x0A]
       = ''no fever''"
proof -
  let ?t = "[CHR '' '', CHR ''n'', CHR ''o'', CHR 0x09, CHR '' '', CHR ''f'', CHR ''e'',
             CHR ''v'', CHR ''e'', CHR ''r'', CHR 0x0A]"
  have h: "list_all (\<lambda>w. map_of engine_abbreviations (clean_word w) = None) (split ?t)"
    by code_simp
  have j: "join (split ?t) = ''no fever''"
    by code_simp
  from h have a: "\<forall>w\<in>set (split ?t). map_of engine_abbreviations (clean_word w) = None"
    unfolding list_all_iff .
  have "(\<forall>w\<in>set (split ?t). map_of engine_abbreviations (clean_word w) = None) \<longrightarrow>
        expand_abbreviations engine_abbreviations ?t = join (split ?t)"
    using expand_abbreviations_collapses_whitespace [of engine_abbreviations ?t] by blast
  then have "expand_abbreviations engine_abbreviations ?t = join (split ?t)"
    using a by blast
  then have "expand_abbreviations engine_abbreviations ?t = ''no fever''"
    using j by (rule trans)
  then show ?thesis using h by blast
qed

subsection \<open>Terminology matcher\<close>


lemma find_from_None:
  "find_from i sub s = None \<Longrightarrow> \<forall>j\<le>length s. \<not> prefix sub (drop j s)"
proof (induction s arbitrary: i)
  case Nil
  then show ?case by (auto split: if_splits)
next
  case (Cons c cs)
  then have np: "\<not> prefix sub (c # cs)" and rec: "find_from (Suc i) sub cs = None"
    by (auto split: if_splits)
  show ?case
  proof (intro allI impI)
    fix j assume j: "j \<le> length (c # cs)"
    show "\<not> prefix sub (drop j (c # cs))"
    proof (cases j)
      case 0
      then show ?thesis using np by simp
    next
      case (Suc m)
      then show ?thesis using Cons.IH [OF rec] j by simp
    qed
  qed
qed










subsection \<open>Entity enhancement\<close>





































end
